theory Spec2Isabelle
  imports Main "HOL-Library.Word"
begin

unbundle bit_operations_syntax

section \<open>Values and errors\<close>

text \<open>
  The program is Python: its integers are unbounded, so a word is an \<open>int\<close> and the
  reduction to 32 bits is the explicit \<open>AND 0xFFFFFFFF\<close> of the source. On \<open>int\<close>,
  \<open>drop_bit\<close> is Python's \<open>>>\<close>, \<open>push_bit\<close> is \<open><<\<close>, and \<open>AND\<close>, \<open>OR\<close>,
  \<open>XOR\<close> are the bitwise operators on two's complement, as in Python.

  An exception is a value: \<open>ValueError\<close> carries the message of the \<open>raise\<close>,
  \<open>IndexError\<close> is a list access out of range.
\<close>

datatype error = ValueError string | IndexError

section \<open>The tempering constants\<close>

definition U :: nat where "U = 11"
definition D :: int where "D = 0xFFFFFFFF"
definition S :: nat where "S = 7"
definition B :: int where "B = 0x9D2C5680"
definition T :: nat where "T = 15"
definition C :: int where "C = 0xEFC60000"
definition L :: nat where "L = 18"

section \<open>Undoing the shift-xor steps\<close>

text \<open>
  \<open>for i in range(0, 32, shift)\<close>: the loop runs for \<open>i = 0, shift, 2 * shift, ...\<close>
  below 32 when \<open>shift\<close> is positive, and not at all when it is negative; a zero
  step makes \<open>range\<close> raise \<open>ValueError\<close>, which the wrappers below return. Inside the
  loop \<open>i\<close> is never negative and \<open>shift\<close> is positive, so every shift count is a
  natural number.
\<close>

function undo_right_shift_xor_loop :: "int \<Rightarrow> int \<Rightarrow> nat \<Rightarrow> int \<Rightarrow> int" where
  "undo_right_shift_xor_loop y shift i x =
     (if 0 < shift \<and> i < 32 then
        (let part = drop_bit i y;
             mask = (if int i + shift \<le> 32 then push_bit (nat shift) 1 - 1
                     else push_bit (32 - i) 1 - 1);
             x_part = (part XOR drop_bit (nat shift) x) AND mask
         in undo_right_shift_xor_loop y shift (i + nat shift) (x OR push_bit i x_part))
      else x)"
  by pat_completeness auto
termination
  by (relation "measure (\<lambda>(y, shift, i, x). 32 - i)") auto

definition undo_right_shift_xor :: "int \<Rightarrow> int \<Rightarrow> error + int" where
  "undo_right_shift_xor y shift =
     (if shift = 0 then Inl (ValueError ''range() arg 3 must not be zero'')
      else Inr (undo_right_shift_xor_loop y shift 0 0 AND 0xFFFFFFFF))"

function undo_left_shift_xor_and_loop :: "int \<Rightarrow> int \<Rightarrow> int \<Rightarrow> nat \<Rightarrow> int \<Rightarrow> int" where
  "undo_left_shift_xor_and_loop y shift mask' i x =
     (if 0 < shift \<and> i < 32 then
        (let part_mask = (if int i + shift \<le> 32 then push_bit (nat shift) 1 - 1
                          else push_bit (32 - i) 1 - 1);
             part = drop_bit i y AND part_mask;
             prev = push_bit (nat shift) x AND mask';
             x_part = part XOR (drop_bit i prev AND part_mask)
         in undo_left_shift_xor_and_loop y shift mask' (i + nat shift) (x OR push_bit i x_part))
      else x)"
  by pat_completeness auto
termination
  by (relation "measure (\<lambda>(y, shift, mask', i, x). 32 - i)") auto

definition undo_left_shift_xor_and :: "int \<Rightarrow> int \<Rightarrow> int \<Rightarrow> error + int" where
  "undo_left_shift_xor_and y shift mask' =
     (if shift = 0 then Inl (ValueError ''range() arg 3 must not be zero'')
      else Inr (undo_left_shift_xor_and_loop y shift mask' 0 0 AND 0xFFFFFFFF))"

text \<open>Sequencing of calls that may raise: the first error ends the computation.\<close>

definition bind_result :: "error + 'a \<Rightarrow> ('a \<Rightarrow> error + 'b) \<Rightarrow> error + 'b" where
  "bind_result r f = (case r of Inl e \<Rightarrow> Inl e | Inr v \<Rightarrow> f v)"

definition untemper :: "int \<Rightarrow> error + int" where
  "untemper y0 =
     (let y = y0 AND 0xFFFFFFFF in
      bind_result (undo_right_shift_xor y (int L)) (\<lambda>y.
      bind_result (undo_left_shift_xor_and y (int T) C) (\<lambda>y.
      bind_result (undo_left_shift_xor_and y (int S) B) (\<lambda>y.
      bind_result (undo_right_shift_xor y (int U)) (\<lambda>y.
      Inr (y AND 0xFFFFFFFF))))))"

section \<open>Tempering\<close>

definition temper :: "int \<Rightarrow> int" where
  "temper y0 =
     (let y = y0 XOR drop_bit U y0;
          y = y XOR (push_bit S y AND B);
          y = y XOR (push_bit T y AND C);
          y = y XOR drop_bit L y
      in y AND 0xFFFFFFFF)"

section \<open>The engine\<close>

definition N :: int where "N = 624"
definition M :: int where "M = 397"
definition MATRIX_A :: int where "MATRIX_A = 0x9908B0DF"
definition UPPER_MASK :: int where "UPPER_MASK = 0x80000000"
definition LOWER_MASK :: int where "LOWER_MASK = 0x7FFFFFFF"

record engine =
  mt :: "int list"
  index :: int

text \<open>
  Python's \<open>xs[i]\<close> and \<open>xs[i] = v\<close>: a negative index counts from the end, and an
  index outside the list raises \<open>IndexError\<close>.
\<close>

definition py_index :: "'a list \<Rightarrow> int \<Rightarrow> error + nat" where
  "py_index xs i =
     (if 0 \<le> i \<and> i < int (length xs) then Inr (nat i)
      else if i < 0 \<and> - int (length xs) \<le> i then Inr (nat (i + int (length xs)))
      else Inl IndexError)"

definition py_get :: "'a list \<Rightarrow> int \<Rightarrow> error + 'a" where
  "py_get xs i = bind_result (py_index xs i) (\<lambda>k. Inr (xs ! k))"

definition py_set :: "'a list \<Rightarrow> int \<Rightarrow> 'a \<Rightarrow> error + 'a list" where
  "py_set xs i v = bind_result (py_index xs i) (\<lambda>k. Inr (xs[k := v]))"

text \<open>
  A method mutates the engine and may raise. Its model returns the outcome (the error, or
  the returned value) together with the engine as the call leaves it, so that what a
  failed call has already written stays visible.
\<close>

type_synonym 'a outcome = "(error + 'a) \<times> engine"

text \<open>\<open>__init__\<close>: the array is 624 zeros and the cursor is at 624.\<close>

definition MT19937_init :: engine where
  "MT19937_init = \<lparr>mt = replicate (nat N) 0, index = N\<rparr>"

definition seed_from_state :: "engine \<Rightarrow> int list \<Rightarrow> unit outcome" where
  "seed_from_state self state_untempered =
     (if int (length state_untempered) \<noteq> N
      then (Inl (ValueError ''Need exactly 624 untempered values''), self)
      else (Inr (), self\<lparr>mt := map (\<lambda>x. x AND 0xFFFFFFFF) state_untempered, index := N\<rparr>))"

text \<open>
  One iteration of the loop of \<open>twist\<close>, statement by statement. The three reads of
  the first two statements come before the first write; each later statement reads
  \<open>self.mt[i]\<close> again and writes it back.
\<close>

definition twist_iteration :: "engine \<Rightarrow> int \<Rightarrow> unit outcome" where
  "twist_iteration self i =
     (case py_get (mt self) i of Inl e \<Rightarrow> (Inl e, self) | Inr a \<Rightarrow>
     (case py_get (mt self) ((i + 1) mod N) of Inl e \<Rightarrow> (Inl e, self) | Inr b \<Rightarrow>
     (let y = (a AND UPPER_MASK) OR (b AND LOWER_MASK) in
     (case py_get (mt self) ((i + M) mod N) of Inl e \<Rightarrow> (Inl e, self) | Inr c \<Rightarrow>
     (case py_set (mt self) i (c XOR drop_bit 1 y) of Inl e \<Rightarrow> (Inl e, self) | Inr mt1 \<Rightarrow>
     (case (if y AND 1 \<noteq> 0
            then bind_result (py_get mt1 i) (\<lambda>d. py_set mt1 i (d XOR MATRIX_A))
            else Inr mt1) of Inl e \<Rightarrow> (Inl e, self\<lparr>mt := mt1\<rparr>) | Inr mt2 \<Rightarrow>
     (case bind_result (py_get mt2 i) (\<lambda>d. py_set mt2 i (d AND 0xFFFFFFFF)) of
        Inl e \<Rightarrow> (Inl e, self\<lparr>mt := mt2\<rparr>)
      | Inr mt3 \<Rightarrow> (Inr (), self\<lparr>mt := mt3\<rparr>))))))))"

text \<open>\<open>for i in range(self.N)\<close>: the iterations in order, stopping at the first error.\<close>

fun twist_loop :: "engine \<Rightarrow> int list \<Rightarrow> unit outcome" where
  "twist_loop self [] = (Inr (), self)"
| "twist_loop self (i # rest) =
     (case twist_iteration self i of
        (Inl e, self') \<Rightarrow> (Inl e, self')
      | (Inr u, self') \<Rightarrow> twist_loop self' rest)"

definition twist :: "engine \<Rightarrow> unit outcome" where
  "twist self =
     (case twist_loop self (map int [0 ..< nat N]) of
        (Inl e, self') \<Rightarrow> (Inl e, self')
      | (Inr u, self') \<Rightarrow> (Inr (), self'\<lparr>index := 0\<rparr>))"

definition next_uint32 :: "engine \<Rightarrow> int outcome" where
  "next_uint32 self =
     (case (if index self \<ge> N then twist self else (Inr (), self)) of
        (Inl e, self') \<Rightarrow> (Inl e, self')
      | (Inr u, self') \<Rightarrow>
          (case py_get (mt self') (index self') of
             Inl e \<Rightarrow> (Inl e, self')
           | Inr y \<Rightarrow> (Inr (temper y), self'\<lparr>index := index self' + 1\<rparr>)))"

section \<open>The array after a twist, as a function of the array before\<close>

text \<open>
  The value that one iteration stores at \<open>self.mt[i]\<close>, from the three values it reads:
  \<open>a = self.mt[i]\<close>, \<open>b = self.mt[(i + 1) % N]\<close> and \<open>c = self.mt[(i + M) % N]\<close>.
\<close>

definition twist_word :: "int \<Rightarrow> int \<Rightarrow> int \<Rightarrow> int" where
  "twist_word a b c =
     (let y = (a AND UPPER_MASK) OR (b AND LOWER_MASK);
          v = c XOR drop_bit 1 y;
          v = (if y AND 1 \<noteq> 0 then v XOR MATRIX_A else v)
      in v AND 0xFFFFFFFF)"

definition twist_store :: "nat \<Rightarrow> int list \<Rightarrow> int list" where
  "twist_store k xs =
     xs[k := twist_word (xs ! k) (xs ! ((k + 1) mod 624)) (xs ! ((k + 397) mod 624))]"

definition twisted :: "int list \<Rightarrow> int list" where
  "twisted xs = fold twist_store [0 ..< 624] xs"

text \<open>
  The twist as the specification words it: every entry computed from a snapshot of the
  array taken before the pass.
\<close>

definition twist_from_snapshot :: "int list \<Rightarrow> int list" where
  "twist_from_snapshot old =
     map (\<lambda>i. twist_word (old ! i) (old ! ((i + 1) mod 624)) (old ! ((i + 397) mod 624)))
       [0 ..< 624]"

section \<open>Reconstruction and successive outputs\<close>

text \<open>
  The reconstruction of \<open>main\<close>: \<open>[untemper(y) for y in outputs]\<close>, a new \<open>MT19937()\<close>,
  and \<open>seed_from_state\<close> on it.
\<close>

fun untemper_all :: "int list \<Rightarrow> error + int list" where
  "untemper_all [] = Inr []"
| "untemper_all (y # ys) =
     bind_result (untemper y) (\<lambda>v.
     bind_result (untemper_all ys) (\<lambda>vs. Inr (v # vs)))"

definition reconstruct :: "int list \<Rightarrow> error + engine" where
  "reconstruct outputs =
     bind_result (untemper_all outputs) (\<lambda>state_untempered.
       case seed_from_state MT19937_init state_untempered of
         (Inl e, predictor) \<Rightarrow> Inl e
       | (Inr u, predictor) \<Rightarrow> Inr predictor)"

text \<open>\<open>n\<close> calls of \<open>next_uint32\<close> in a row on one engine, and the values they return.\<close>

fun next_outputs :: "engine \<Rightarrow> nat \<Rightarrow> int list outcome" where
  "next_outputs self 0 = (Inr [], self)"
| "next_outputs self (Suc n) =
     (case next_uint32 self of
        (Inl e, self') \<Rightarrow> (Inl e, self')
      | (Inr v, self') \<Rightarrow>
          (case next_outputs self' n of
             (Inl e, self'') \<Rightarrow> (Inl e, self'')
           | (Inr vs, self'') \<Rightarrow> (Inr (v # vs), self'')))"

text \<open>
  The round trip: a generator whose array is \<open>state\<close> emits 624 outputs, an engine is
  reconstructed from them, and then each of the two is asked for \<open>k\<close> more outputs. The
  result is the pair of the reconstructed engine's outputs and the generator's own.
\<close>

definition round_trip :: "int list \<Rightarrow> nat \<Rightarrow> error + (int list \<times> int list)" where
  "round_trip state k =
     (case next_outputs \<lparr>mt = state, index = N\<rparr> 624 of
        (Inl e, generator) \<Rightarrow> Inl e
      | (Inr observed, generator) \<Rightarrow>
          bind_result (reconstruct observed) (\<lambda>predictor.
          bind_result (fst (next_outputs predictor k)) (\<lambda>predicted.
          bind_result (fst (next_outputs generator k)) (\<lambda>actual.
          Inr (predicted, actual)))))"

section \<open>The state invariant\<close>

definition state_inv :: "engine \<Rightarrow> bool" where
  "state_inv self \<longleftrightarrow>
     (\<forall>x \<in> set (mt self). 0 \<le> x \<and> x < 2 ^ 32) \<and> 0 \<le> index self \<and> index self \<le> 624"

text \<open>
  The engine as every method leaves it: an array of 624 entries and a cursor from 0 to 624.
\<close>

definition well_formed :: "engine \<Rightarrow> bool" where
  "well_formed self \<longleftrightarrow> length (mt self) = 624 \<and> 0 \<le> index self \<and> index self \<le> 624"

section \<open>Tempering on 32-bit words\<close>

text \<open>
  The four steps as the specification lists them, with every value a 32-bit word, so that
  each step discards the bits above bit 31.
\<close>

definition temper_spec :: "32 word \<Rightarrow> 32 word" where
  "temper_spec x =
     (let y1 = x XOR drop_bit 11 x;
          y2 = y1 XOR (push_bit 7 y1 AND 0x9D2C5680);
          y3 = y2 XOR (push_bit 15 y2 AND 0xEFC60000);
          y4 = y3 XOR drop_bit 18 y3
      in y4)"

section \<open>Accesses inside the array\<close>

lemma py_get_in_range: "k < length xs \<Longrightarrow> py_get xs (int k) = Inr (xs ! k)"
  by (simp add: py_get_def py_index_def bind_result_def)

lemma py_set_in_range: "k < length xs \<Longrightarrow> py_set xs (int k) v = Inr (xs[k := v])"
  by (simp add: py_set_def py_index_def bind_result_def)

lemma mod_N_int:
  "(int k + 1) mod N = int ((k + 1) mod 624)"
  "(int k + M) mod N = int ((k + 397) mod 624)"
  by (simp_all add: N_def M_def zmod_int add.commute)

lemma twist_iteration_ok:
  assumes "length (mt self) = 624" and "k < 624"
  shows "twist_iteration self (int k) = (Inr (), self\<lparr>mt := twist_store k (mt self)\<rparr>)"
  using assms
  by (simp add: twist_iteration_def mod_N_int py_get_in_range py_set_in_range twist_store_def
      twist_word_def bind_result_def Let_def)

lemma length_twist_store [simp]: "length (twist_store k xs) = length xs"
  by (simp add: twist_store_def)

lemma twist_loop_ok:
  "length (mt self) = 624 \<Longrightarrow> \<forall>k \<in> set ks. k < 624 \<Longrightarrow>
   twist_loop self (map int ks) = (Inr (), self\<lparr>mt := fold twist_store ks (mt self)\<rparr>)"
proof (induction ks arbitrary: self)
  case Nil
  then show ?case by simp
next
  case (Cons k ks)
  then show ?case by (simp add: twist_iteration_ok)
qed

lemma twist_ok:
  "length (mt self) = 624 \<Longrightarrow> twist self = (Inr (), self\<lparr>mt := twisted (mt self), index := 0\<rparr>)"
  by (simp add: twist_def N_def twist_loop_ok twisted_def)


lemma length_fold_twist_store [simp]: "length (fold twist_store ks xs) = length xs"
  by (induction ks arbitrary: xs) simp_all

lemma length_twisted [simp]: "length (twisted xs) = length xs"
  by (simp add: twisted_def)

lemma fold_twist_store_untouched:
  "k \<notin> set ks \<Longrightarrow> fold twist_store ks xs ! k = xs ! k"
  by (induction ks arbitrary: xs) (simp_all add: twist_store_def)

lemma twisted_split:
  assumes "k < 624"
  shows "twisted xs = fold twist_store [Suc k ..< 624] (twist_store k (fold twist_store [0 ..< k] xs))"
proof -
  have "[0 ..< 624] = [0 ..< k] @ k # [Suc k ..< 624]"
    using assms by (metis less_imp_le_nat upt_add_eq_append upt_conv_Cons le0 add_0 le_add_diff_inverse)
  then show ?thesis by (simp add: twisted_def)
qed

lemma twisted_nth_early:
  assumes "j < k" and "k \<le> 624"
  shows "fold twist_store [0 ..< k] xs ! j = twisted xs ! j"
proof -
  have "[0 ..< 624] = [0 ..< k] @ [k ..< 624]"
    using assms by (metis le0 upt_add_eq_append le_add_diff_inverse add_0)
  then have "twisted xs = fold twist_store [k ..< 624] (fold twist_store [0 ..< k] xs)"
    by (simp add: twisted_def)
  then show ?thesis using assms by (simp add: fold_twist_store_untouched)
qed

lemma twisted_nth:
  assumes len: "length xs = 624" and k: "k < 624"
  shows "twisted xs ! k =
         twist_word (xs ! k)
           (if k < 623 then xs ! (k + 1) else twisted xs ! 0)
           (if k < 227 then xs ! (k + 397) else twisted xs ! (k - 227))"
proof -
  let ?p = "fold twist_store [0 ..< k] xs"
  have "twisted xs ! k = twist_store k ?p ! k"
    using k by (simp add: twisted_split fold_twist_store_untouched)
  also have "\<dots> = twist_word (?p ! k) (?p ! ((k + 1) mod 624)) (?p ! ((k + 397) mod 624))"
    using len k by (simp add: twist_store_def)
  finally have step: "twisted xs ! k =
      twist_word (?p ! k) (?p ! ((k + 1) mod 624)) (?p ! ((k + 397) mod 624))" .
  have a: "?p ! k = xs ! k"
    by (simp add: fold_twist_store_untouched)
  have b: "?p ! ((k + 1) mod 624) = (if k < 623 then xs ! (k + 1) else twisted xs ! 0)"
  proof (cases "k < 623")
    case True
    then show ?thesis by (simp add: fold_twist_store_untouched)
  next
    case False
    with k have "k = 623" by simp
    then show ?thesis by (simp add: twisted_nth_early)
  qed
  have c: "?p ! ((k + 397) mod 624) = (if k < 227 then xs ! (k + 397) else twisted xs ! (k - 227))"
  proof (cases "k < 227")
    case True
    then show ?thesis by (simp add: fold_twist_store_untouched)
  next
    case False
    with k have "(k + 397) mod 624 = k - 227" 
      by (simp add: mod_if)
    moreover from False k have "k - 227 < k" by simp
    ultimately show ?thesis using False k by (simp add: twisted_nth_early)
  qed
  show ?thesis by (simp only: step a b c)
qed

section \<open>Tempering agrees with its 32-bit form\<close>

lemma uint_shiftl_and: 
  fixes w :: "32 word"
  assumes "take_bit 32 m = m"
  shows "uint (push_bit n w AND word_of_int m) = push_bit n (uint w) AND m"
proof (rule bit_eqI)
  fix k
  have "bit m k \<Longrightarrow> k < 32"
    by (metis assms bit_take_bit_iff)
  then show "bit (uint (push_bit n w AND word_of_int m)) k = bit (push_bit n (uint w) AND m) k"
    by (auto simp add: bit_simps)
qed

lemma uint_shiftr_xor:
  fixes w :: "32 word"
  shows "uint (w XOR drop_bit n w) = uint w XOR drop_bit n (uint w)"
  by (rule bit_eqI) (auto simp add: bit_simps)

lemma uint_and_mask32: 
  fixes w :: "32 word"
  shows "uint w AND 0xFFFFFFFF = uint w"
proof -
  have "uint w AND mask 32 = uint w"
    using uint_lt2p [of w] by (simp add: take_bit_int_eq_self flip: take_bit_eq_mask)
  then show ?thesis by (simp add: mask_eq_exp_minus_1)
qed

section \<open>Successive outputs\<close>

lemma next_uint32_twist:
  assumes "length (mt self) = 624" and "N \<le> index self"
  shows "next_uint32 self =
         (Inr (temper (twisted (mt self) ! 0)), self\<lparr>mt := twisted (mt self), index := 1\<rparr>)"
  using assms py_get_in_range [of 0 "twisted (mt self)"]
  by (simp add: next_uint32_def twist_ok)

lemma next_uint32_plain:
  assumes "length (mt self) = 624" and "index self = int i" and "i < 624"
  shows "next_uint32 self = (Inr (temper (mt self ! i)), self\<lparr>index := int i + 1\<rparr>)"
  using assms by (simp add: next_uint32_def N_def py_get_in_range)

lemma next_outputs_plain:
  "length (mt self) = 624 \<Longrightarrow> index self = int i \<Longrightarrow> i + n \<le> 624 \<Longrightarrow>
   next_outputs self n =
     (Inr (map temper (take n (drop i (mt self)))), self\<lparr>index := int (i + n)\<rparr>)"
proof (induction n arbitrary: self i)
  case 0
  then show ?case by simp
next
  case (Suc n)
  from Suc.prems have i: "i < 624" by simp
  have step: "next_uint32 self = (Inr (temper (mt self ! i)), self\<lparr>index := int i + 1\<rparr>)"
    using Suc.prems i by (simp add: next_uint32_plain)
  have rest: "next_outputs (self\<lparr>index := int i + 1\<rparr>) n =
      (Inr (map temper (take n (drop (Suc i) (mt self)))), self\<lparr>index := int (Suc i + n)\<rparr>)"
    using Suc.IH [of "self\<lparr>index := int i + 1\<rparr>" "Suc i"] Suc.prems by simp
  have "drop i (mt self) = mt self ! i # drop (Suc i) (mt self)"
    using Suc.prems i by (simp add: Cons_nth_drop_Suc)
  then show ?case by (simp add: step rest)
qed

lemma next_outputs_after_twist:
  assumes "length (mt self) = 624" and "N \<le> index self" and "0 < n" and "n \<le> 624"
  shows "next_outputs self n =
     (Inr (map temper (take n (twisted (mt self)))),
      self\<lparr>mt := twisted (mt self), index := int n\<rparr>)"
proof -
  obtain m where n: "n = Suc m" using assms(3) by (cases n) auto
  let ?e = "self\<lparr>mt := twisted (mt self), index := 1\<rparr>"
  have rest: "next_outputs ?e m =
      (Inr (map temper (take m (drop 1 (twisted (mt self))))), ?e\<lparr>index := int (1 + m)\<rparr>)"
    using next_outputs_plain [of ?e 1 m] assms n by simp
  have "length (twisted (mt self)) = 624"
    using assms(1) by simp
  then have "take (Suc m) (twisted (mt self)) = twisted (mt self) ! 0 # take m (drop 1 (twisted (mt self)))"
    by (cases "twisted (mt self)") simp_all
  then show ?thesis using assms by (simp add: n next_uint32_twist rest)
qed

lemma twist_word_zero: "twist_word 0 0 0 = 0"
  by (simp add: twist_word_def)

lemma twist_store_zeros:
  "twist_store k (replicate 624 0) = replicate 624 0"
  apply (cases "k < 624")
  by (simp_all add: twist_store_def twist_word_zero list_eq_iff_nth_eq nth_list_update)

lemma fold_twist_store_zeros:
  "fold twist_store ks (replicate 624 0) = replicate 624 0"
  by (induction ks) (simp_all add: twist_store_zeros)

lemma twisted_zeros: "twisted (replicate 624 0) = replicate 624 0"
  by (simp add: twisted_def fold_twist_store_zeros)

lemma next_uint32_init:
  "next_uint32 MT19937_init = (Inr 0, \<lparr>mt = replicate 624 0, index = 1\<rparr>)"
  by (simp add: MT19937_init_def next_uint32_twist N_def twisted_zeros temper_def)

section \<open>Reconstruction\<close>

lemma untemper_total: "\<exists>v. untemper y = Inr v"
  by (simp add: untemper_def undo_right_shift_xor_def undo_left_shift_xor_and_def bind_result_def
      L_def T_def S_def U_def Let_def)

lemma untemper_all_total:
  "untemper_all ys = Inr (map (\<lambda>y. projr (untemper y)) ys)"
proof (induction ys)
  case Nil
  then show ?case by simp
next
  case (Cons y ys)
  obtain v where "untemper y = Inr v"
    using untemper_total by blast
  then show ?case
    by (simp add: bind_result_def Cons.IH)
qed

lemma reconstruct_ok:
  assumes "length ys = 624"
  shows "reconstruct ys =
         Inr \<lparr>mt = map (\<lambda>y. projr (untemper y) AND 0xFFFFFFFF) ys, index = N\<rparr>"
  using assms
  by (simp add: reconstruct_def untemper_all_total bind_result_def seed_from_state_def N_def
      MT19937_init_def comp_def)


lemma twist_word_pass: "twist_word 0 0 1 = 1" "twist_word 0 0 17 = 17"
  by (simp_all add: twist_word_def UPPER_MASK_def LOWER_MASK_def)

lemma untemper_temper_samples:
  "untemper (temper 0) = Inr 0" "untemper (temper 1) = Inr 17"
  by code_simp+

lemma temper_samples: "temper 1 = 4194449" "temper 17 = 4194433"
  by code_simp+

section \<open>The state invariant is kept\<close>

lemma and_mask32_range: "0 \<le> (v::int) AND 0xFFFFFFFF \<and> v AND 0xFFFFFFFF < 2 ^ 32"
proof -
  have "v AND 0xFFFFFFFF = take_bit 32 v"
    by (simp add: take_bit_eq_mask mask_eq_exp_minus_1)
  then show ?thesis
    using take_bit_int_less_exp [of 32 v] take_bit_nonnegative [of 32 v] by simp
qed

lemma py_index_update: "py_index (xs[k := v]) i = py_index xs i"
  by (simp add: py_index_def)

lemma twist_iteration_shape:
  assumes "twist_iteration self i = (Inr u, self')"
  shows "\<exists>k v. self' = self\<lparr>mt := (mt self)[k := v AND 0xFFFFFFFF]\<rparr>"
  using assms
  apply (auto simp add: twist_iteration_def py_get_def py_set_def bind_result_def Let_def
      py_index_update split: sum.splits if_splits)
  by ((rule exI)+, rule refl)+

lemma state_inv_update:
  assumes "state_inv self"
  shows "state_inv (self\<lparr>mt := (mt self)[k := v AND 0xFFFFFFFF]\<rparr>)"
proof -
  have "set ((mt self)[k := v AND 0xFFFFFFFF]) \<subseteq> insert (v AND 0xFFFFFFFF) (set (mt self))"
    by (rule set_update_subset_insert)
  then show ?thesis
    using assms and_mask32_range [of v] by (auto simp add: state_inv_def)
qed

lemma twist_iteration_inv:
  "twist_iteration self i = (Inr u, self') \<Longrightarrow> state_inv self \<Longrightarrow> state_inv self'"
  using twist_iteration_shape state_inv_update by blast

lemma twist_loop_inv:
  "twist_loop self ks = (Inr u, self') \<Longrightarrow> state_inv self \<Longrightarrow> state_inv self'"
proof (induction ks arbitrary: self)
  case Nil
  then show ?case by simp
next
  case (Cons k ks)
  then show ?case
    by (auto split: prod.splits sum.splits dest: twist_iteration_inv)
qed

lemma state_inv_index: "state_inv self \<Longrightarrow> 0 \<le> i \<Longrightarrow> i \<le> 624 \<Longrightarrow> state_inv (self\<lparr>index := i\<rparr>)"
  by (simp add: state_inv_def)

lemma twist_inv:
  assumes "twist self = (Inr u, self')" and "state_inv self"
  shows "state_inv self'"
  using assms
  by (auto simp add: twist_def split: prod.splits sum.splits
      dest!: twist_loop_inv intro: state_inv_index)

lemma twist_index:
  "twist self = (Inr u, self') \<Longrightarrow> index self' = 0"
  by (auto simp add: twist_def split: prod.splits sum.splits)

lemma seed_from_state_inv:
  assumes "seed_from_state self xs = (Inr u, self')"
  shows "state_inv self'"
  using assms and_mask32_range
  by (auto simp add: seed_from_state_def state_inv_def N_def split: if_splits)

lemma init_inv: "state_inv MT19937_init"
  by (simp add: MT19937_init_def state_inv_def N_def)

lemma next_uint32_inv:
  assumes "next_uint32 self = (Inr v, self')" and "state_inv self"
  shows "state_inv self'"
proof (cases "N \<le> index self")
  case True
  with assms(1) obtain s1 where tw: "twist self = (Inr (), s1)"
    and self': "self' = s1\<lparr>index := index s1 + 1\<rparr>"
    by (auto simp add: next_uint32_def split: prod.splits sum.splits)
  from tw assms(2) have "state_inv s1" by (rule twist_inv)
  moreover from tw have "index s1 = 0" by (rule twist_index)
  ultimately show ?thesis by (simp add: self' state_inv_index)
next
  case False
  with assms(1) have self': "self' = self\<lparr>index := index self + 1\<rparr>"
    by (auto simp add: next_uint32_def split: prod.splits sum.splits)
  from False assms(2) have "0 \<le> index self + 1" "index self + 1 \<le> 624"
    by (simp_all add: state_inv_def N_def)
  with assms(2) show ?thesis by (simp add: self' state_inv_index)
qed

section \<open>Every call on a well-formed engine returns\<close>

lemma next_uint32_total:
  assumes "well_formed self"
  shows "\<exists>v self'. next_uint32 self = (Inr v, self') \<and> well_formed self'"
proof (cases "N \<le> index self")
  case True
  with assms show ?thesis
    by (simp add: well_formed_def next_uint32_twist)
next
  case False
  with assms obtain i where i: "index self = int i" "i < 624"
    by (metis well_formed_def N_def nat_0_le nat_less_iff not_le of_nat_numeral)
  from assms have "length (mt self) = 624" by (simp add: well_formed_def)
  then have "next_uint32 self = (Inr (temper (mt self ! i)), self\<lparr>index := int i + 1\<rparr>)"
    using i by (rule next_uint32_plain)
  moreover have "well_formed (self\<lparr>index := int i + 1\<rparr>)"
    using assms i by (simp add: well_formed_def)
  ultimately show ?thesis by blast
qed

lemma next_outputs_total:
  "well_formed self \<Longrightarrow>
   \<exists>vs self'. next_outputs self n = (Inr vs, self') \<and> length vs = n \<and> well_formed self'"
proof (induction n arbitrary: self)
  case 0
  then show ?case by simp
next
  case (Suc n)
  from Suc.prems obtain v s1 where one: "next_uint32 self = (Inr v, s1)" and wf: "well_formed s1"
    using next_uint32_total by blast
  from Suc.IH [OF wf] obtain vs s2 where
    rest: "next_outputs s1 n = (Inr vs, s2)" "length vs = n" "well_formed s2"
    by blast
  then show ?case by (simp add: one)
qed

lemma seed_from_state_ok:
  "length xs = 624 \<Longrightarrow>
   seed_from_state self xs = (Inr (), \<lparr>mt = map (\<lambda>x. x AND 0xFFFFFFFF) xs, index = 624\<rparr>)"
  by (cases self) (simp add: seed_from_state_def N_def)

section \<open>The engine that was never seeded\<close>

lemma temper_zero: "temper 0 = 0"
  by (simp add: temper_def)

lemma next_uint32_zeros:
  assumes "mt self = replicate 624 0" and "well_formed self"
  shows "\<exists>self'. next_uint32 self = (Inr 0, self') \<and> mt self' = replicate 624 0 \<and>
           well_formed self'"
proof (cases "N \<le> index self")
  case True
  with assms show ?thesis
    by (simp add: next_uint32_twist twisted_zeros temper_zero well_formed_def)
next
  case False
  with assms obtain i where i: "index self = int i" "i < 624"
    by (metis well_formed_def N_def nat_0_le nat_less_iff not_le of_nat_numeral)
  from assms have "length (mt self) = 624" by (simp add: well_formed_def)
  then have "next_uint32 self = (Inr (temper (mt self ! i)), self\<lparr>index := int i + 1\<rparr>)"
    using i by (rule next_uint32_plain)
  moreover have "well_formed (self\<lparr>index := int i + 1\<rparr>)"
    using assms i by (simp add: well_formed_def)
  ultimately show ?thesis using assms(1) i by (simp add: temper_zero)
qed

lemma next_outputs_zeros:
  "mt self = replicate 624 0 \<Longrightarrow> well_formed self \<Longrightarrow>
   fst (next_outputs self n) = Inr (replicate n 0)"
proof (induction n arbitrary: self)
  case 0
  then show ?case by simp
next
  case (Suc n)
  from Suc.prems obtain s1 where one: "next_uint32 self = (Inr 0, s1)"
    and s1: "mt s1 = replicate 624 0" "well_formed s1"
    using next_uint32_zeros by blast
  from Suc.IH [OF s1] show ?case
    by (cases "next_outputs s1 n") (auto simp add: one)
qed

lemma twist_init: "twist MT19937_init = (Inr (), \<lparr>mt = replicate 624 0, index = 0\<rparr>)"
  by (simp add: MT19937_init_def twist_ok N_def twisted_zeros)

section \<open>A state on which the in-place pass shows\<close>

lemma twisted_sample:
  "twisted ((replicate 624 0)[397 := 1]) ! 0 = 1"
  "twisted ((replicate 624 0)[397 := 1]) ! 227 = 1"
proof -
  let ?s = "(replicate 624 0)[397 := 1] :: int list"
  show a: "twisted ?s ! 0 = 1"
    using twisted_nth [of ?s 0] by (simp add: twist_word_pass)
  show "twisted ?s ! 227 = 1"
    using twisted_nth [of ?s 227] by (simp add: a twist_word_pass)
qed

section \<open>The claims\<close>

subsection \<open>C1: prediction after reconstruction\<close>

text \<open>
  C1 says that an engine reconstructed from the untempered forms of 624 successive outputs
  of a generator returns, call after call, what the generator itself returns next. The
  program does not do that. Take the generator whose array is 624 zeros except for a 1 at
  position 567, with the cursor at 624. Its twist leaves 1 at positions 170 and 397 and 0
  at positions 0 and 1, so its output number 625 is \<open>temper 1 = 4194449\<close>. But
  \<open>untemper (temper 1)\<close> is 17 and not 1, the reconstructed array holds 17 at position
  397, and the first output of the reconstructed engine is \<open>temper 17 = 4194433\<close>.
\<close>

theorem round_trip_diverges:
  "round_trip ((replicate 624 0)[567 := 1]) 1 = Inr ([4194433], [4194449])"
proof -
  let ?s = "(replicate 624 0)[567 := 1] :: int list"
  let ?t = "twisted ?s"
  let ?u = "map (\<lambda>y. projr (untemper y) AND 0xFFFFFFFF) (map temper ?t)"
  have len: "length ?s = 624" "length ?t = 624" "length ?u = 624" by simp_all
  have t0: "?t ! 0 = 0"
    using twisted_nth [of ?s 0] by (simp add: twist_word_zero)
  have t1: "?t ! 1 = 0"
    using twisted_nth [of ?s 1] by (simp add: twist_word_zero)
  have t1': "?t ! Suc 0 = 0"
    using t1 by simp
  have t170: "?t ! 170 = 1"
    using twisted_nth [of ?s 170] by (simp add: twist_word_pass)
  have t397: "?t ! 397 = 1"
    using twisted_nth [of ?s 397] by (simp add: t170 twist_word_pass)
  have observed: "next_outputs \<lparr>mt = ?s, index = N\<rparr> 624 =
      (Inr (map temper ?t), \<lparr>mt = ?t, index = 624\<rparr>)"
    using next_outputs_after_twist [of "\<lparr>mt = ?s, index = N\<rparr>" 624] by simp
  have predictor: "reconstruct (map temper ?t) = Inr \<lparr>mt = ?u, index = N\<rparr>"
    using reconstruct_ok [of "map temper ?t"] by simp
  have u: "?u ! 0 = 0" "?u ! 1 = 0" "?u ! 397 = 17"
    by (simp_all add: t0 t1' t397 untemper_temper_samples)
  have "twisted ?u ! 0 = twist_word (?u ! 0) (?u ! 1) (?u ! 397)"
    using twisted_nth [of ?u 0] len(3) by simp
  then have pu: "twisted ?u ! 0 = 17"
    by (simp only: u twist_word_pass)
  have "twisted ?t ! 0 = twist_word (?t ! 0) (?t ! 1) (?t ! 397)"
    using twisted_nth [of ?t 0] len(2) by simp
  then have pt: "twisted ?t ! 0 = 1"
    by (simp only: t0 t1 t397 twist_word_pass)
  have predicted: "fst (next_outputs \<lparr>mt = ?u, index = N\<rparr> 1) = Inr [4194433]"
    using next_outputs_after_twist [of "\<lparr>mt = ?u, index = N\<rparr>" 1] len(3) pu
    by (simp add: take_Suc_conv_app_nth temper_samples)
  have actual: "fst (next_outputs \<lparr>mt = ?t, index = 624\<rparr> 1) = Inr [4194449]"
    using next_outputs_after_twist [of "\<lparr>mt = ?t, index = 624\<rparr>" 1] len(2) pt
    by (simp add: take_Suc_conv_app_nth temper_samples N_def)
  show ?thesis
    by (simp only: round_trip_def observed predictor predicted actual bind_result_def
        prod.case sum.case)
qed

subsection \<open>C2: temper and untemper as inverses\<close>

text \<open>
  C2 says that \<open>untemper\<close> undoes \<open>temper\<close> and \<open>temper\<close> undoes \<open>untemper\<close> on every
  32-bit word. On the word 1 neither holds: \<open>temper 1\<close> is 4194449 and \<open>untemper\<close> of it
  is 17, and \<open>temper\<close> of \<open>untemper 1\<close> is 589711552. The loop of
  \<open>undo_right_shift_xor\<close> starts at bit 0 and mixes in \<open>x >> shift\<close>, of which only
  the bits below \<open>i - shift\<close> are known by then; for the shift 18 it returns its argument.
\<close>

theorem untemper_temper_at_1:
  "untemper (temper 1) = Inr 17 \<and>
   bind_result (untemper 1) (\<lambda>x. Inr (temper x)) = Inr 589711552"
  by code_simp

subsection \<open>C3: the length check of seed_from_state\<close>

text \<open>
  C3: \<open>seed_from_state\<close> raises the length error (the \<open>ValueError\<close> of the source) exactly
  when the sequence is not 624 long, and succeeds when it is.
\<close>

theorem seed_from_state_length:
  "fst (seed_from_state self xs) =
     (if length xs = 624 then Inr ()
      else Inl (ValueError ''Need exactly 624 untempered values''))"
  by (simp add: seed_from_state_def N_def)

text \<open>
  The three lengths that C3 names, 623, 625 and 624.
\<close>

theorem seed_from_state_length_witness:
  "fst (seed_from_state MT19937_init (replicate 623 7)) =
     Inl (ValueError ''Need exactly 624 untempered values'') \<and>
   fst (seed_from_state MT19937_init (replicate 625 7)) =
     Inl (ValueError ''Need exactly 624 untempered values'') \<and>
   fst (seed_from_state MT19937_init (replicate 624 7)) = Inr ()"
  using seed_from_state_length [of MT19937_init "replicate 623 7"]
    seed_from_state_length [of MT19937_init "replicate 625 7"]
    seed_from_state_length [of MT19937_init "replicate 624 7"]
  by simp

subsection \<open>C4: more than 624 words\<close>

text \<open>
  C4, as the program has it: a sequence of more than 624 words is not cut to its first
  624; \<open>seed_from_state\<close> raises the length error and the engine stays as it was.
\<close>

theorem seed_from_state_too_long:
  "624 < length xs \<Longrightarrow>
   seed_from_state self xs = (Inl (ValueError ''Need exactly 624 untempered values''), self)"
  by (simp add: seed_from_state_def N_def)

text \<open>
  A sequence of 700 words, on an engine chosen at will.
\<close>

theorem seed_from_state_too_long_witness:
  "(624::nat) < length (replicate 700 (1::int)) \<and>
   seed_from_state \<lparr>mt = [5], index = 0\<rparr> (replicate 700 1) =
     (Inl (ValueError ''Need exactly 624 untempered values''), \<lparr>mt = [5], index = 0\<rparr>)"
  using seed_from_state_too_long [of "replicate 700 1" "\<lparr>mt = [5], index = 0\<rparr>"] by simp

text \<open>
  Against C4 as it is worded: seeding a new engine with 625 words fails.
\<close>

theorem seed_from_state_625_rejected:
  "fst (seed_from_state MT19937_init (replicate 625 0)) =
     Inl (ValueError ''Need exactly 624 untempered values'')"
  by (simp add: seed_from_state_def N_def)

subsection \<open>C5: what the twist reads\<close>

text \<open>
  C5, as the program has it: on an array of 624 entries the twist returns, and the entry it
  stores at \<open>k\<close> comes from the old entry at \<open>k\<close>; from the old entry at \<open>k + 1\<close>, except
  that the last iteration reads the entry 0 that the pass has already rewritten; and from
  the old entry at \<open>k + 397\<close> while \<open>k < 227\<close>, after which the read at \<open>(k + 397) mod 624 =
  k - 227\<close> finds the entry that the pass has already rewritten. This is the recurrence of
  the generator, computed in place.
\<close>

theorem twist_reads:
  assumes "length (mt self) = 624" and "k < 624"
  shows "fst (twist self) = Inr () \<and>
         mt (snd (twist self)) ! k =
           twist_word (mt self ! k)
             (if k < 623 then mt self ! (k + 1) else mt (snd (twist self)) ! 0)
             (if k < 227 then mt self ! (k + 397) else mt (snd (twist self)) ! (k - 227))"
  using assms twisted_nth [of "mt self" k] by (simp add: twist_ok)

text \<open>
  The iteration 227 on the array of zeros with a 1 at position 397: it reads the new
  entry 0.
\<close>

theorem twist_reads_witness:
  "length (mt \<lparr>mt = (replicate 624 0)[397 := 1], index = 624\<rparr>) = 624 \<and> (227::nat) < 624 \<and>
   fst (twist \<lparr>mt = (replicate 624 0)[397 := 1], index = 624\<rparr>) = Inr () \<and>
   mt (snd (twist \<lparr>mt = (replicate 624 0)[397 := 1], index = 624\<rparr>)) ! 227 =
     twist_word 0 0 (mt (snd (twist \<lparr>mt = (replicate 624 0)[397 := 1], index = 624\<rparr>)) ! 0)"
  using twist_reads [of "\<lparr>mt = (replicate 624 0)[397 := 1], index = 624\<rparr>" 227] by simp

text \<open>
  Against C5 as it is worded: on that array the pass stores 1 at position 227, where a
  twist computed from a snapshot of the old array stores 0.
\<close>

theorem twist_not_from_snapshot:
  "mt (snd (twist \<lparr>mt = (replicate 624 0)[397 := 1], index = 624\<rparr>)) ! 227 = 1 \<and>
   twist_from_snapshot ((replicate 624 0)[397 := 1]) ! 227 = 0 \<and>
   mt (snd (twist \<lparr>mt = (replicate 624 0)[397 := 1], index = 624\<rparr>)) \<noteq>
     twist_from_snapshot ((replicate 624 0)[397 := 1])"
proof -
  have code: "mt (snd (twist \<lparr>mt = (replicate 624 0)[397 := 1], index = 624\<rparr>)) ! 227 = 1"
    by (simp add: twist_ok twisted_sample)
  have snapshot: "twist_from_snapshot ((replicate 624 0)[397 := 1]) ! 227 = 0"
    by (simp add: twist_from_snapshot_def twist_word_zero)
  from code snapshot show ?thesis by auto
qed

subsection \<open>C6: an engine that was never seeded\<close>

text \<open>
  C6, as the program has it: \<open>__init__\<close> fills the array with zeros and puts the cursor at
  624, and \<open>next_uint32\<close> has no check for seeding; on an engine that was never seeded every
  call returns, and returns 0.
\<close>

theorem unseeded_outputs_zero: "fst (next_outputs MT19937_init n) = Inr (replicate n 0)"
  by (rule next_outputs_zeros) (simp_all add: MT19937_init_def N_def well_formed_def)

text \<open>
  Against C6 as it is worded: the first call on a new engine raises nothing and returns 0.
\<close>

theorem unseeded_next_uint32_returns: "fst (next_uint32 MT19937_init) = Inr 0"
  by (simp add: next_uint32_init)

subsection \<open>C7: the four steps of temper\<close>

text \<open>
  C7: on every 32-bit word \<open>temper\<close>, which works on unbounded integers and masks once at
  the end, returns what the four steps return when each is done in 32 bits: xor with the
  shift right by 11, xor with the shift left by 7 under the mask \<open>0x9D2C5680\<close>, xor with
  the shift left by 15 under the mask \<open>0xEFC60000\<close>, xor with the shift right by 18.
\<close>

theorem temper_four_steps: "temper (uint w) = uint (temper_spec w)"
proof -
  have step2: "uint (v XOR (push_bit 7 v AND (0x9D2C5680 :: 32 word))) = uint v XOR (push_bit 7 (uint v) AND 0x9D2C5680)" for v :: "32 word"
    using uint_shiftl_and [of "0x9D2C5680" 7 v] by (simp add: uint_xor)
  have step3: "uint (v XOR (push_bit 15 v AND (0xEFC60000 :: 32 word))) = uint v XOR (push_bit 15 (uint v) AND 0xEFC60000)" for v :: "32 word"
    using uint_shiftl_and [of "0xEFC60000" 15 v] by (simp add: uint_xor)
  show ?thesis
    unfolding temper_def temper_spec_def U_def S_def T_def L_def B_def C_def Let_def
    by (simp only: uint_shiftr_xor [symmetric] step2 [symmetric] step3 [symmetric] uint_and_mask32)
qed

subsection \<open>C8: determinism\<close>

text \<open>
  C8: two engines, whatever they held before, seeded from the same 624 words: both
  seedings succeed, and for every \<open>n\<close> the first \<open>n\<close> calls of \<open>next_uint32\<close> all return
  and return the same \<open>n\<close> values on both.
\<close>

theorem determinism:
  assumes "length xs = 624"
  shows "fst (seed_from_state a xs) = Inr () \<and> fst (seed_from_state b xs) = Inr () \<and>
         (\<exists>vs. length vs = n \<and>
            fst (next_outputs (snd (seed_from_state a xs)) n) = Inr vs \<and>
            fst (next_outputs (snd (seed_from_state b xs)) n) = Inr vs)"
proof -
  let ?e = "\<lparr>mt = map (\<lambda>x. x AND 0xFFFFFFFF) xs, index = 624\<rparr>"
  have "well_formed ?e" using assms by (simp add: well_formed_def)
  then obtain vs s where "next_outputs ?e n = (Inr vs, s)" "length vs = n"
    using next_outputs_total by blast
  then show ?thesis using assms by (auto simp add: seed_from_state_ok)
qed

text \<open>
  A new engine and one with other contents, both seeded with 624 zeros, two calls each.
\<close>

theorem determinism_witness:
  "length (replicate 624 (0::int)) = 624 \<and>
   fst (next_outputs (snd (seed_from_state MT19937_init (replicate 624 0))) 2) =
   fst (next_outputs (snd (seed_from_state \<lparr>mt = [9], index = 3\<rparr> (replicate 624 0))) 2) \<and>
   \<not> isl (fst (next_outputs (snd (seed_from_state MT19937_init (replicate 624 0))) 2))"
  using determinism [of "replicate 624 0" MT19937_init "\<lparr>mt = [9], index = 3\<rparr>" 2]
  by auto

subsection \<open>C9: a failed seeding changes nothing\<close>

text \<open>
  C9: when the length is not 624, \<open>seed_from_state\<close> raises and the engine it leaves is
  the engine it was given, array and cursor.
\<close>

theorem seed_from_state_atomic:
  "length xs \<noteq> 624 \<Longrightarrow>
   seed_from_state self xs = (Inl (ValueError ''Need exactly 624 untempered values''), self)"
  by (simp add: seed_from_state_def N_def)

text \<open>
  Three words, on an engine chosen at will.
\<close>

theorem seed_from_state_atomic_witness:
  "length [1, 2, 3 :: int] \<noteq> 624 \<and>
   seed_from_state \<lparr>mt = [4, 5], index = 1\<rparr> [1, 2, 3] =
     (Inl (ValueError ''Need exactly 624 untempered values''), \<lparr>mt = [4, 5], index = 1\<rparr>)"
  using seed_from_state_atomic [of "[1, 2, 3]" "\<lparr>mt = [4, 5], index = 1\<rparr>"] by simp

subsection \<open>C10: the state invariant\<close>

text \<open>
  C10: every entry of the array is in \<open>[0, 2^32)\<close> and the cursor is in \<open>[0, 624]\<close> after
  construction, after every successful \<open>seed_from_state\<close>, and after every successful
  \<open>twist\<close> and \<open>next_uint32\<close> on an engine of which this was true.
\<close>

theorem state_inv_kept:
  "state_inv MT19937_init \<and>
   (seed_from_state self xs = (Inr (), self') \<longrightarrow> state_inv self') \<and>
   (state_inv self \<and> twist self = (Inr (), self') \<longrightarrow> state_inv self') \<and>
   (state_inv self \<and> next_uint32 self = (Inr v, self') \<longrightarrow> state_inv self')"
  using init_inv seed_from_state_inv twist_inv next_uint32_inv by blast

text \<open>
  A seeding with 624 times the value -1, and a twist and an output of a new engine.
\<close>

theorem state_inv_kept_witness:
  "state_inv MT19937_init \<and>
   seed_from_state MT19937_init (replicate 624 (-1)) =
     (Inr (), \<lparr>mt = replicate 624 0xFFFFFFFF, index = 624\<rparr>) \<and>
   state_inv \<lparr>mt = replicate 624 0xFFFFFFFF, index = 624\<rparr> \<and>
   twist MT19937_init = (Inr (), \<lparr>mt = replicate 624 0, index = 0\<rparr>) \<and>
   state_inv \<lparr>mt = replicate 624 0, index = 0\<rparr> \<and>
   next_uint32 MT19937_init = (Inr 0, \<lparr>mt = replicate 624 0, index = 1\<rparr>) \<and>
   state_inv \<lparr>mt = replicate 624 0, index = 1\<rparr>"
proof -
  have seed: "seed_from_state MT19937_init (replicate 624 (-1)) =
     (Inr (), \<lparr>mt = replicate 624 0xFFFFFFFF, index = 624\<rparr>)"
    by (simp add: seed_from_state_ok)
  show ?thesis
    using state_inv_kept [of MT19937_init "replicate 624 (-1)"
        "\<lparr>mt = replicate 624 0xFFFFFFFF, index = 624\<rparr>"]
      state_inv_kept [of MT19937_init "[]" "\<lparr>mt = replicate 624 0, index = 0\<rparr>"]
      state_inv_kept [of MT19937_init "[]" "\<lparr>mt = replicate 624 0, index = 1\<rparr>" 0]
      seed twist_init next_uint32_init
    by simp
qed

end
